theory Spec2Isabelle
  imports Main
begin

section \<open>Data model\<close>

text \<open>
  The project store (state/ProjectStore) and the run store (state/runStore) are two
  zustand stores; every action is a synchronous state transformer. Records follow
  the TypeScript interfaces. Field names that would clash with a HOL constant or with a
  field of another record carry a suffix: \<open>id_m\<close>, \<open>content_m\<close> for \<open>Message\<close>,
  \<open>id_p\<close> for \<open>Project\<close>, \<open>last_e\<close> for \<open>RunState.last\<close>.

  \<open>activeFile?: string | null\<close> is a \<open>string option\<close> with \<open>None\<close> for
  \<open>null\<close>. The value \<open>undefined\<close> does not arise: \<open>createEmptyProject\<close> and
  every action of the store write a string or \<open>null\<close>.
\<close>

record ProjectFile =
  name :: string
  content :: string

record Message =
  id_m :: int
  content_m :: string
  fromUser :: bool

record Project =
  id_p :: string
  title :: string
  files :: "ProjectFile list"
  activeFile :: "string option"
  messages :: "Message list"
  isPending :: bool

record ProjectStore =
  project :: "Project option"
  ready :: bool

datatype StepState = Queued | Running | Done | Failed

datatype RunType = Generate | Modify

text \<open>
  \<open>RunEvent\<close> (types/run-events) is a union discriminated by \<open>t\<close>, closed by the
  catch-all \<open>Record<string, unknown>\<close>. Payload fields that \<open>pushEvent\<close> tests with
  \<open>typeof ... === "string"\<close> are options (\<open>None\<close>: not a string). A \<open>status\<close>
  event whose \<open>step\<close> is not a string is handled exactly like an unrecognised event and
  is an \<open>EOther\<close>. In \<open>EDone ok projectId project_id\<close> the flag is \<open>False\<close> exactly
  when \<open>e.ok === false\<close>.
\<close>

datatype RunEvent =
    EStatus string StepState
  | ERouterResult string
  | EPlanReady nat
  | ELog "string option"
  | ETitleGenerated "string option"
  | EDone bool "string option" "string option"
  | EOther

record RunState =
  runId :: "string option"
  running :: bool
  runType :: "RunType option"
  steps :: "string \<rightharpoonup> StepState"
  logs :: "Message list"
  last_e :: "RunEvent option"

section \<open>Project store actions\<close>

definition setReady :: "bool \<Rightarrow> ProjectStore \<Rightarrow> ProjectStore" where
  "setReady r s = s\<lparr>ready := r\<rparr>"

definition renameProject :: "string \<Rightarrow> ProjectStore \<Rightarrow> ProjectStore" where
  "renameProject newTitle s =
     (case project s of
        Some p \<Rightarrow> s\<lparr>project := Some (p\<lparr>title := newTitle\<rparr>)\<rparr>
      | None \<Rightarrow> s)"

definition addFile :: "ProjectFile \<Rightarrow> ProjectStore \<Rightarrow> ProjectStore" where
  "addFile file s =
     (case project s of
        None \<Rightarrow> s
      | Some p \<Rightarrow> s\<lparr>project := Some (p\<lparr>files := files p @ [file]\<rparr>)\<rparr>)"

text \<open>\<open>xs[0]?.name ?? null\<close>\<close>

definition firstName :: "ProjectFile list \<Rightarrow> string option" where
  "firstName fs = (case fs of [] \<Rightarrow> None | f # _ \<Rightarrow> Some (name f))"

definition deleteFile :: "string \<Rightarrow> ProjectStore \<Rightarrow> ProjectStore" where
  "deleteFile fileName s =
     (case project s of
        None \<Rightarrow> s
      | Some p \<Rightarrow>
          (let nextFiles = filter (\<lambda>f. name f \<noteq> fileName) (files p);
               nextActive = (if activeFile p = Some fileName then firstName nextFiles
                             else activeFile p)
           in s\<lparr>project := Some (p\<lparr>files := nextFiles, activeFile := nextActive\<rparr>)\<rparr>))"

definition setIsPending :: "bool \<Rightarrow> ProjectStore \<Rightarrow> ProjectStore" where
  "setIsPending v s =
     (case project s of
        Some p \<Rightarrow> s\<lparr>project := Some (p\<lparr>isPending := v\<rparr>)\<rparr>
      | None \<Rightarrow> s)"

definition setMessages :: "Message list \<Rightarrow> ProjectStore \<Rightarrow> ProjectStore" where
  "setMessages ms s =
     (case project s of
        Some p \<Rightarrow> s\<lparr>project := Some (p\<lparr>messages := ms\<rparr>)\<rparr>
      | None \<Rightarrow> s)"

definition setId :: "string \<Rightarrow> ProjectStore \<Rightarrow> ProjectStore" where
  "setId i s =
     (case project s of
        Some p \<Rightarrow> s\<lparr>project := Some (p\<lparr>id_p := i\<rparr>)\<rparr>
      | None \<Rightarrow> s)"

definition setActiveFile :: "string option \<Rightarrow> ProjectStore \<Rightarrow> ProjectStore" where
  "setActiveFile fileName s =
     (case project s of
        Some p \<Rightarrow> s\<lparr>project := Some (p\<lparr>activeFile := fileName\<rparr>)\<rparr>
      | None \<Rightarrow> s)"

definition setFiles :: "ProjectFile list \<Rightarrow> ProjectStore \<Rightarrow> ProjectStore" where
  "setFiles fs s =
     (case project s of
        None \<Rightarrow> s
      | Some p \<Rightarrow>
          (let nextActive =
                 (case find (\<lambda>f. Some (name f) = activeFile p) fs of
                    Some f \<Rightarrow> Some (name f)
                  | None \<Rightarrow> firstName fs)
           in s\<lparr>project := Some (p\<lparr>files := fs, activeFile := nextActive\<rparr>)\<rparr>))"


definition addMessage :: "string \<Rightarrow> bool \<Rightarrow> ProjectStore \<Rightarrow> ProjectStore" where
  "addMessage c fu s =
     (case project s of
        None \<Rightarrow> s
      | Some p \<Rightarrow>
          (let newId = (if messages p \<noteq> [] then id_m (last (messages p)) else 0) + 1
           in s\<lparr>project := Some (p\<lparr>messages :=
                  messages p @ [\<lparr>id_m = newId, content_m = c, fromUser = fu\<rparr>]\<rparr>)\<rparr>))"

section \<open>Completion reconciler: snapshot normalisation and application\<close>

text \<open>
  A file of the fetched snapshot carries \<open>string | object\<close>. A structured value is
  represented by the text that \<open>JSON.stringify(v, null, 2)\<close> yields for it.
\<close>

datatype RawContent = RawString string | RawObject string

record RawFile =
  name_r :: string
  content_r :: RawContent

record FullProjectResponse =
  id_r :: string
  title_r :: string
  files_r :: "RawFile list"
  messages_r :: "Message list"

record NormalizedProject =
  id_n :: string
  title_n :: string
  files_n :: "ProjectFile list"
  messages_n :: "Message list"

definition normalizeProject :: "FullProjectResponse \<Rightarrow> NormalizedProject" where
  "normalizeProject d =
     \<lparr>id_n = id_r d,
      title_n = title_r d,
      files_n = map (\<lambda>f. \<lparr>name = name_r f,
                           content = (case content_r f of RawObject j \<Rightarrow> j | RawString t \<Rightarrow> t)\<rparr>)
                    (files_r d),
      messages_n = messages_r d\<rparr>"

definition applyProjectToStore :: "NormalizedProject \<Rightarrow> ProjectStore \<Rightarrow> ProjectStore" where
  "applyProjectToStore p s =
     setReady True
       (setMessages (messages_n p)
         (setId (id_n p)
           (renameProject (title_n p)
             (setActiveFile (firstName (files_n p))
               (setFiles (files_n p) s)))))"

section \<open>Run store\<close>

text \<open>
  The module variable \<open>doneInflight\<close>, the two stores, the snapshot fetches that
  have been issued and not yet settled (oldest first, by project id), and a trace of the
  observable effects of the completion reconciler make up the state of the model.
\<close>

datatype Effect = FetchIssued string | ProjectApplied | ConsoleError string

record World =
  doneInflight :: bool
  run :: RunState
  store :: ProjectStore
  inflight :: "string list"
  effects :: "Effect list"

text \<open>\<open>set(initialRunState)\<close> merges: \<open>runType\<close> is not a key of \<open>initialRunState\<close>.\<close>

definition setInitialRunState :: "RunState \<Rightarrow> RunState" where
  "setInitialRunState r =
     r\<lparr>runId := None, running := False, steps := Map.empty, logs := [], last_e := None\<rparr>"

definition reset :: "World \<Rightarrow> World" where
  "reset w = w\<lparr>doneInflight := False, run := setInitialRunState (run w)\<rparr>"

definition initRun :: "string \<Rightarrow> RunType \<Rightarrow> World \<Rightarrow> World" where
  "initRun rid rt w =
     w\<lparr>doneInflight := False,
       run := (setInitialRunState (run w))
                \<lparr>runId := Some rid, runType := Some rt, running := True,
                 steps := [''router'' \<mapsto> Queued]\<rparr>\<rparr>"

definition appendLog :: "string \<Rightarrow> bool \<Rightarrow> RunState \<Rightarrow> RunState" where
  "appendLog line fu r =
     r\<lparr>logs := logs r @ [\<lparr>id_m = int (length (logs r)) + 1, content_m = line, fromUser = fu\<rparr>]\<rparr>"

definition setStep :: "string \<Rightarrow> StepState \<Rightarrow> RunState \<Rightarrow> RunState" where
  "setStep step st r = r\<lparr>steps := (steps r)(step \<mapsto> st)\<rparr>"

definition setRunning :: "bool \<Rightarrow> RunState \<Rightarrow> RunState" where
  "setRunning b r = r\<lparr>running := b\<rparr>"

definition setLast :: "RunEvent \<Rightarrow> World \<Rightarrow> World" where
  "setLast e w = w\<lparr>run := (run w)\<lparr>last_e := Some e\<rparr>\<rparr>"

text \<open>
  The \<open>finally\<close> block of the asynchronous part of the \<open>done\<close> handler, and its
  \<open>catch\<close> block.
\<close>

definition doneFinally :: "World \<Rightarrow> World" where
  "doneFinally w = w\<lparr>store := setIsPending False (store w), doneInflight := False\<rparr>"

definition doneCatch :: "string \<Rightarrow> World \<Rightarrow> World" where
  "doneCatch err w = w\<lparr>effects := effects w @ [ConsoleError err]\<rparr>"

text \<open>\<open>get().runId ?? e.projectId ?? e.project_id\<close>\<close>

definition doneProjectId :: "RunState \<Rightarrow> string option \<Rightarrow> string option \<Rightarrow> string option" where
  "doneProjectId r a b =
     (case runId r of Some i \<Rightarrow> Some i
      | None \<Rightarrow> (case a of Some i \<Rightarrow> Some i | None \<Rightarrow> b))"

text \<open>
  The asynchronous function of the \<open>done\<close> handler runs synchronously up to its first
  \<open>await\<close>: it marks the mirror pending and either throws on a missing (or empty)
  project id, which runs \<open>catch\<close> and \<open>finally\<close> at once, or issues the fetch and
  suspends.
\<close>

definition doneAsyncStart :: "string option \<Rightarrow> string option \<Rightarrow> World \<Rightarrow> World" where
  "doneAsyncStart a b w =
     (let w1 = w\<lparr>store := setIsPending True (store w)\<rparr>
      in case doneProjectId (run w1) a b of
           None \<Rightarrow> doneFinally (doneCatch ''Missing projectId in 'done' event'' w1)
         | Some i \<Rightarrow>
             if i = [] then doneFinally (doneCatch ''Missing projectId in 'done' event'' w1)
             else w1\<lparr>inflight := inflight w1 @ [i],
                     effects := effects w1 @ [FetchIssued i]\<rparr>)"

definition pushEvent :: "RunEvent \<Rightarrow> World \<Rightarrow> World" where
  "pushEvent e w =
     (case e of
        EStatus step st \<Rightarrow> setLast e (w\<lparr>run := setStep step st (run w)\<rparr>)
      | ELog chunk \<Rightarrow>
          setLast e (w\<lparr>run := appendLog (case chunk of Some c \<Rightarrow> c | None \<Rightarrow> []) False (run w)\<rparr>)
      | ETitleGenerated t \<Rightarrow>
          setLast e (w\<lparr>store := renameProject
                        (case t of Some c \<Rightarrow> c | None \<Rightarrow> ''Untitled Project'') (store w)\<rparr>)
      | EDone ok a b \<Rightarrow>
          if doneInflight w then w
          else
            (let w1 = w\<lparr>doneInflight := True\<rparr>;
                 w2 = w1\<lparr>run := setStep ''done'' Done (run w1)\<rparr>;
                 w3 = w2\<lparr>store := setReady True (store w2)\<rparr>
             in if \<not> ok
                then w3\<lparr>store := addMessage ''Pipeline failed to complete.'' False (store w3),
                        doneInflight := False\<rparr>
                else
                  (let w4 = doneAsyncStart a b w3;
                       w5 = w4\<lparr>run := setRunning False (run w4)\<rparr>
                   in setLast e w5))
      | _ \<Rightarrow> setLast e w)"

text \<open>
  The continuation of the suspended \<open>done\<close> handler when the oldest outstanding fetch
  settles: \<open>fetchProjectDirect\<close> either throws or yields the snapshot.
\<close>

datatype FetchOutcome = FetchFailed string | FetchOk FullProjectResponse

definition fetchSettled :: "FetchOutcome \<Rightarrow> World \<Rightarrow> World" where
  "fetchSettled out w =
     (case inflight w of
        [] \<Rightarrow> w
      | i # rest \<Rightarrow>
          (let w1 = w\<lparr>inflight := rest\<rparr>
           in case out of
                FetchFailed err \<Rightarrow> doneFinally (doneCatch err w1)
              | FetchOk raw \<Rightarrow>
                  doneFinally
                    (w1\<lparr>store := applyProjectToStore (normalizeProject raw) (store w1),
                        effects := effects w1 @ [ProjectApplied]\<rparr>)))"

definition fetchCount :: "World \<Rightarrow> nat" where
  "fetchCount w = length (filter (\<lambda>x. case x of FetchIssued _ \<Rightarrow> True | _ \<Rightarrow> False) (effects w))"

definition applyCount :: "World \<Rightarrow> nat" where
  "applyCount w = length (filter (\<lambda>x. x = ProjectApplied) (effects w))"

section \<open>Run view: step order and active step\<close>

definition ALL_STEPS :: "string list" where
  "ALL_STEPS = [''router'', ''planner'', ''implement'', ''test'', ''fix'']"

definition stepOrder :: "string option \<Rightarrow> string list" where
  "stepOrder rt =
     (if rt = Some ''modify'' then [''planner'', ''implement'', ''test'', ''fix'']
      else ALL_STEPS)"

text \<open>\<open>Array.prototype.findIndex\<close>: the first index whose element satisfies the test, else -1.\<close>

primrec findIndex :: "('a \<Rightarrow> bool) \<Rightarrow> 'a list \<Rightarrow> int" where
  "findIndex P [] = -1"
| "findIndex P (x # xs) =
     (if P x then 0
      else (let i = findIndex P xs in if i = -1 then -1 else i + 1))"

text \<open>\<open>xs[i]\<close>: \<open>None\<close> is the \<open>undefined\<close> of an index out of range.\<close>

definition at :: "'a list \<Rightarrow> int \<Rightarrow> 'a option" where
  "at xs i = (if 0 \<le> i \<and> i < int (length xs) then Some (xs ! nat i) else None)"

definition active :: "(string \<rightharpoonup> StepState) \<Rightarrow> string list \<Rightarrow> string option" where
  "active st order =
     (let runningIndex = findIndex (\<lambda>step. st step = Some Running) order
      in if runningIndex \<noteq> -1 then at order runningIndex
         else
           (let firstNotDoneIndex = findIndex (\<lambda>step. st step \<noteq> Some Done) order
            in if firstNotDoneIndex \<noteq> -1 then at order firstNotDoneIndex
               else at order (int (length order) - 1)))"

text \<open>
  The derivation rule in the words of the specification: the first running step, else the
  first step that is not done, else the last step.
\<close>

definition activeSpec :: "(string \<rightharpoonup> StepState) \<Rightarrow> string list \<Rightarrow> string" where
  "activeSpec st order =
     (case find (\<lambda>step. st step = Some Running) order of
        Some s \<Rightarrow> s
      | None \<Rightarrow>
          (case find (\<lambda>step. st step \<noteq> Some Done) order of
             Some s \<Rightarrow> s
           | None \<Rightarrow> last order))"

section \<open>Editor: optimistic add, delete and rename\<close>

text \<open>
  The handlers of the code editor read \<open>project\<close> and \<open>activeFile\<close> of the store as
  rendered. Each returns the new store and the remote requests it has issued; the
  rollback callback of a request is a function of the values its closure captured.
\<close>

datatype Request =
    AddFileReq string string
  | DeleteFileReq string
  | RenameFileReq string string

definition fileNames :: "ProjectStore \<Rightarrow> string list" where
  "fileNames s = (case project s of None \<Rightarrow> [] | Some p \<Rightarrow> map name (files p))"

definition selection :: "ProjectStore \<Rightarrow> string option" where
  "selection s = (case project s of None \<Rightarrow> None | Some p \<Rightarrow> activeFile p)"

text \<open>\<open>prompt\<close> yields \<open>None\<close> when it is dismissed.\<close>

definition handleAddFile :: "string option \<Rightarrow> ProjectStore \<Rightarrow> ProjectStore \<times> Request list" where
  "handleAddFile prompted s =
     (case project s of
        None \<Rightarrow> (s, [])
      | Some p \<Rightarrow>
          (case prompted of
             None \<Rightarrow> (s, [])
           | Some newName \<Rightarrow>
               if newName = [] then (s, [])
               else if newName \<in> set (map name (files p)) then (s, [])
               else
                 (let initialContent = ''// New file'';
                      nextFiles = files p @ [\<lparr>name = newName, content = initialContent\<rparr>];
                      s1 = setFiles nextFiles s;
                      s2 = setActiveFile (Some newName) s1
                  in (s2, [AddFileReq newName initialContent]))))"

definition addFileOnError :: "Project \<Rightarrow> string \<Rightarrow> ProjectStore \<Rightarrow> ProjectStore" where
  "addFileOnError p newName s =
     (let s1 = setFiles (files p) s
      in case activeFile p of
           Some a \<Rightarrow>
             if a \<noteq> [] \<and> a \<noteq> newName then setActiveFile (Some a) s1
             else setActiveFile (firstName (files p)) s1
         | None \<Rightarrow> setActiveFile (firstName (files p)) s1)"

record DeleteCtx =
  prevFiles_d :: "ProjectFile list"
  prevActive_d :: "string option"

text \<open>The second argument is the answer to the \<open>confirm\<close> dialogue.\<close>

definition handleDeleteFile ::
  "string \<Rightarrow> bool \<Rightarrow> ProjectStore \<Rightarrow> ProjectStore \<times> Request list \<times> DeleteCtx option" where
  "handleDeleteFile nm confirmed s =
     (case project s of
        None \<Rightarrow> (s, [], None)
      | Some p \<Rightarrow>
          if \<not> confirmed then (s, [], None)
          else
            (let prevFiles = files p;
                 newFiles = filter (\<lambda>file. name file \<noteq> nm) prevFiles;
                 prevActive = activeFile p;
                 s1 = setFiles newFiles s;
                 s2 = (if Some nm = activeFile p then setActiveFile (firstName newFiles) s1
                       else s1)
             in (s2, [DeleteFileReq nm],
                 Some \<lparr>prevFiles_d = prevFiles, prevActive_d = prevActive\<rparr>)))"

definition deleteFileOnError :: "DeleteCtx \<Rightarrow> ProjectStore \<Rightarrow> ProjectStore" where
  "deleteFileOnError c s = setActiveFile (prevActive_d c) (setFiles (prevFiles_d c) s)"

record RenameCtx =
  prevFiles :: "ProjectFile list"
  prevActive :: "string option"

text \<open>\<open>onMutate\<close> of \<open>useRenameFile\<close>: \<open>Inl\<close> is the error it throws.\<close>

definition renameOnMutate ::
  "string \<Rightarrow> string \<Rightarrow> ProjectStore \<Rightarrow> ProjectStore \<times> (string + RenameCtx)" where
  "renameOnMutate oldName newName s =
     (case project s of
        None \<Rightarrow> (s, Inl ''No active project'')
      | Some p \<Rightarrow>
          if newName \<in> set (map name (files p))
          then (s, Inl ''File with the new name already exists'')
          else
            (let nextFiles = map (\<lambda>f. if name f = oldName then f\<lparr>name := newName\<rparr> else f)
                                 (files p);
                 s1 = setFiles nextFiles s;
                 s2 = (if activeFile p = Some oldName then setActiveFile (Some newName) s1
                       else s1)
             in (s2, Inr \<lparr>prevFiles = files p, prevActive = activeFile p\<rparr>)))"

text \<open>\<open>onError\<close> of \<open>useRenameFile\<close>; the context is absent when \<open>onMutate\<close> threw.\<close>

definition renameOnError :: "RenameCtx option \<Rightarrow> ProjectStore \<Rightarrow> ProjectStore" where
  "renameOnError ctx s =
     (case ctx of
        None \<Rightarrow> s
      | Some c \<Rightarrow> setActiveFile (prevActive c) (setFiles (prevFiles c) s))"

text \<open>
  \<open>renameFile\<close> is \<open>mutation.mutate\<close>: the mutation function (the remote rename) runs
  only when \<open>onMutate\<close> has returned; when it throws, \<open>onError\<close> runs without a context.
\<close>

definition renameFile ::
  "string \<Rightarrow> string \<Rightarrow> ProjectStore \<Rightarrow> ProjectStore \<times> Request list \<times> RenameCtx option" where
  "renameFile oldName newName s =
     (case renameOnMutate oldName newName s of
        (s1, Inl err) \<Rightarrow> (renameOnError None s1, [], None)
      | (s1, Inr ctx) \<Rightarrow> (s1, [RenameFileReq oldName newName], Some ctx))"

section \<open>Debounced file save\<close>

text \<open>
  The three refs of \<open>useDebouncedFileSave\<close>, the project store, and the contents of the
  remote writes issued so far. \<open>timerPending\<close> holds while a timeout set by \<open>save\<close> has
  neither fired nor been cleared. The hook's \<open>projectId\<close> and \<open>fileName\<close> are arguments.
\<close>

record SaveState =
  latestContentRef :: string
  prevContentRef :: string
  timerPending :: bool
  pstore :: ProjectStore
  writes :: "string list"
  saveErrors :: nat

definition endsWith :: "string \<Rightarrow> string \<Rightarrow> bool" where
  "endsWith s t = (length t \<le> length s \<and> drop (length s - length t) s = t)"

text \<open>
  \<open>stripTwBuilt\<close> removes the first \<open><style id="tw-built">\<close> block by a regular-expression
  replace; the replace is the parameter \<open>re\<close>.
\<close>

definition stripTwBuilt :: "(string \<Rightarrow> string) \<Rightarrow> string \<Rightarrow> string" where
  "stripTwBuilt re html = (if html = [] then html else re html)"

definition contentToSave :: "(string \<Rightarrow> string) \<Rightarrow> string \<Rightarrow> string \<Rightarrow> string" where
  "contentToSave re fileName raw =
     (if fileName \<noteq> [] \<and> endsWith fileName ''index.html'' then stripTwBuilt re raw else raw)"


text \<open>The effect on the key: all refs are reset and the timer is cleared.\<close>

definition keyChanged :: "SaveState \<Rightarrow> SaveState" where
  "keyChanged st = st\<lparr>latestContentRef := [], prevContentRef := [], timerPending := False\<rparr>"


text \<open>\<open>mutation.mutate()\<close>: \<open>onMutate\<close>, then the mutation function issues the write.\<close>

definition mutate :: "(string \<Rightarrow> string) \<Rightarrow> string \<Rightarrow> SaveState \<Rightarrow> SaveState" where
  "mutate re fileName st =
     (let st1 = st\<lparr>pstore := setIsPending True (pstore st)\<rparr>
      in st1\<lparr>writes := writes st1 @ [contentToSave re fileName (latestContentRef st1)]\<rparr>)"


definition flush :: "(string \<Rightarrow> string) \<Rightarrow> string \<Rightarrow> string \<Rightarrow> SaveState \<Rightarrow> SaveState" where
  "flush re projectId fileName st =
     (if projectId = [] \<or> fileName = [] then st
      else mutate re fileName (st\<lparr>timerPending := False\<rparr>))"



section \<open>Cancelling a run\<close>

text \<open>
  \<open>useKillRun\<close>: the mutation function throws without a request when there is no
  token. Otherwise it issues the request, and throws when \<open>fetch\<close> rejects, when the
  reply is not ok (with the text of the body, or the error of reading it), and when the
  reply is ok but \<open>res.json()\<close> rejects. \<open>onSuccess\<close> is the only callback.
\<close>

datatype KillReply =
    KillOk
  | KillNotOk string
  | KillFetchRejected string
  | KillTextRejected string
  | KillJsonRejected string

definition killRunFn :: "string option \<Rightarrow> string \<Rightarrow> KillReply \<Rightarrow> (string + unit) \<times> string list" where
  "killRunFn token rid reply =
     (case token of
        None \<Rightarrow> (Inl ''No auth token available'', [])
      | Some t \<Rightarrow>
          if t = [] then (Inl ''No auth token available'', [])
          else
            (case reply of
               KillFetchRejected err \<Rightarrow> (Inl err, [rid])
             | KillNotOk text \<Rightarrow> (Inl (''Failed to kill run: '' @ text), [rid])
             | KillTextRejected err \<Rightarrow> (Inl err, [rid])
             | KillJsonRejected err \<Rightarrow> (Inl err, [rid])
             | KillOk \<Rightarrow> (Inr (), [rid])))"

definition killRun :: "string option \<Rightarrow> string \<Rightarrow> KillReply \<Rightarrow> World \<Rightarrow> World \<times> string list" where
  "killRun token rid reply w =
     (case killRunFn token rid reply of
        (Inr u, reqs) \<Rightarrow> (reset w, reqs)
      | (Inl err, reqs) \<Rightarrow> (w, reqs))"

section \<open>Initial state, event sequences and the scenario store\<close>

text \<open>A sequence of \<open>status\<close> events, given by the step and the state each carries.\<close>

definition statusEvents :: "(string \<times> StepState) list \<Rightarrow> RunEvent list" where
  "statusEvents kvs = map (\<lambda>(k, st). EStatus k st) kvs"

text \<open>In the words of the specification: the state of the last event that names \<open>k\<close>.\<close>

definition lastNaming :: "string \<Rightarrow> (string \<times> StepState) list \<Rightarrow> StepState option" where
  "lastNaming k kvs = map_option snd (find (\<lambda>(k', st). k' = k) (rev kvs))"

text \<open>
  The initial state of the two stores: \<open>createEmptyProject\<close> with the identifier that
  \<open>genId\<close> returned, and \<open>initialRunState\<close>.
\<close>

definition createEmptyProject :: "string \<Rightarrow> string \<Rightarrow> Project" where
  "createEmptyProject gid t =
     \<lparr>id_p = gid, title = t, files = [], activeFile = None, messages = [], isPending = False\<rparr>"

definition initialWorld :: "string \<Rightarrow> World" where
  "initialWorld gid =
     \<lparr>doneInflight = False,
      run = \<lparr>runId = None, running = False, runType = None, steps = Map.empty, logs = [],
             last_e = None\<rparr>,
      store = \<lparr>project = Some (createEmptyProject gid ''Undefined Project''), ready = False\<rparr>,
      inflight = [],
      effects = []\<rparr>"

text \<open>A burst of \<open>done\<close> events that do not signal failure, given by their two id fields.\<close>

definition doneEvents :: "(string option \<times> string option) list \<Rightarrow> RunEvent list" where
  "doneEvents ds = map (\<lambda>(a, b). EDone True a b) ds"

text \<open>The invariant of the mirror: the selection is absent or names a file of the collection.\<close>

definition selectionValid :: "ProjectStore \<Rightarrow> bool" where
  "selectionValid s =
     (case selection s of None \<Rightarrow> True | Some a \<Rightarrow> a \<in> set (fileNames s))"

text \<open>The mirror of the concrete scenario: files a.ts and b.ts, a.ts selected.\<close>

definition mirrorAB :: "string \<Rightarrow> string \<Rightarrow> ProjectStore" where
  "mirrorAB ca cb =
     \<lparr>project = Some \<lparr>id_p = ''p0'', title = ''T'',
                       files = [\<lparr>name = ''a.ts'', content = ca\<rparr>, \<lparr>name = ''b.ts'', content = cb\<rparr>],
                       activeFile = Some ''a.ts'', messages = [], isPending = False\<rparr>,
      ready = True\<rparr>"



section \<open>Status events\<close>

lemma steps_pushEvent_status:
  "steps (run (pushEvent (EStatus k st) w)) = (steps (run w))(k \<mapsto> st)"
  by (simp add: pushEvent_def setLast_def setStep_def)

text \<open>
  C2. After any finite sequence of status events has been pushed, the step map gives
  each key the state of the last event naming it, and every key that no event names keeps
  the value it had before.
\<close>

theorem C2_last_status_wins:
  "steps (run (fold pushEvent (statusEvents kvs) w)) k =
     (case lastNaming k kvs of Some st \<Rightarrow> Some st | None \<Rightarrow> steps (run w) k)"
proof (induction kvs rule: rev_induct)
  case Nil
  show ?case by (simp add: statusEvents_def lastNaming_def)
next
  case (snoc x xs)
  obtain k' st' where x: "x = (k', st')" by (cases x)
  have "steps (run (fold pushEvent (statusEvents (xs @ [x])) w)) =
        (steps (run (fold pushEvent (statusEvents xs) w)))(k' \<mapsto> st')"
    by (simp add: statusEvents_def x steps_pushEvent_status)
  with snoc show ?case
    by (simp add: lastNaming_def x)
qed

section \<open>Active step derivation\<close>

lemma findIndex_none: "find P xs = None \<Longrightarrow> findIndex P xs = -1"
  by (induction xs) (auto split: if_splits)

lemma findIndex_some:
  "find P xs = Some y \<Longrightarrow> findIndex P xs \<noteq> -1 \<and> at xs (findIndex P xs) = Some y"
proof (induction xs)
  case Nil
  then show ?case by simp
next
  case (Cons x xs)
  show ?case
  proof (cases "P x")
    case True
    with Cons.prems show ?thesis by (simp add: at_def)
  next
    case False
    with Cons.prems have f: "find P xs = Some y" by simp
    from Cons.IH [OF f] have i: "findIndex P xs \<noteq> -1" and a: "at xs (findIndex P xs) = Some y"
      by simp_all
    from a have r: "0 \<le> findIndex P xs \<and> findIndex P xs < int (length xs)"
      by (simp add: at_def split: if_splits)
    from a r have "xs ! nat (findIndex P xs) = y" by (simp add: at_def)
    with False i r show ?thesis
      by (simp add: at_def Let_def nat_add_distrib)
  qed
qed

lemma at_last: "order \<noteq> [] \<Longrightarrow> at order (int (length order) - 1) = Some (last order)"
  by (cases order rule: rev_cases) (simp_all add: at_def nat_diff_distrib nth_append)

lemma active_refines:
  assumes "order \<noteq> []"
  shows "active st order = Some (activeSpec st order)"
proof (cases "find (\<lambda>step. st step = Some Running) order")
  case (Some s)
  from findIndex_some [OF Some] show ?thesis
    by (simp add: active_def activeSpec_def Some)
next
  case None
  note n1 = findIndex_none [OF None]
  show ?thesis
  proof (cases "find (\<lambda>step. st step \<noteq> Some Done) order")
    case (Some s)
    from findIndex_some [OF Some] n1 show ?thesis
      by (simp add: active_def activeSpec_def Some None)
  next
    case N2: None
    from findIndex_none [OF N2] n1 at_last [OF assms] show ?thesis
      by (simp add: active_def activeSpec_def None N2)
  qed
qed

lemma find_in_set: "find P xs = Some y \<Longrightarrow> y \<in> set xs \<and> P y"
  by (induction xs) (auto split: if_splits)

lemma activeSpec_member: "order \<noteq> [] \<Longrightarrow> activeSpec st order \<in> set order"
  by (auto simp: activeSpec_def split: option.splits dest: find_in_set)

lemma activeSpec_running:
  "s \<in> set order \<Longrightarrow> st s = Some Running \<Longrightarrow> st (activeSpec st order) = Some Running"
  by (auto simp: activeSpec_def find_None_iff split: option.splits dest: find_in_set)

lemma stepOrder_nonempty: "stepOrder rt \<noteq> []"
  by (simp add: stepOrder_def ALL_STEPS_def)

text \<open>
  C3. For every step map and either step order (five steps, or the four that remain without
  the first for a modify run), the derivation in the run view returns exactly one step of
  the order, the one the rule of the specification names: the first running step if a
  step of the order is running, else the first step that is not done, else the last
  step. Whenever a step of the order is running, the active step is a running one.
\<close>

theorem C3_active_step:
  "active st (stepOrder rt) = Some (activeSpec st (stepOrder rt))
   \<and> activeSpec st (stepOrder rt) \<in> set (stepOrder rt)
   \<and> length (stepOrder rt) = (if rt = Some ''modify'' then 4 else 5)
   \<and> stepOrder (Some ''modify'') = tl (stepOrder (Some ''generate''))
   \<and> ((\<exists>s \<in> set (stepOrder rt). st s = Some Running)
        \<longrightarrow> st (activeSpec st (stepOrder rt)) = Some Running)"
  using active_refines [OF stepOrder_nonempty, of st rt]
        activeSpec_member [OF stepOrder_nonempty, of st rt]
  by (auto simp: activeSpec_running) (simp_all add: stepOrder_def ALL_STEPS_def)

theorem C3_active_step_witness:
  "(\<exists>s \<in> set (stepOrder (Some ''modify'')). [''planner'' \<mapsto> Done, ''test'' \<mapsto> Running, ''implement'' \<mapsto> Queued] s = Some Running)
   \<and> active [''planner'' \<mapsto> Done, ''test'' \<mapsto> Running, ''implement'' \<mapsto> Queued] (stepOrder (Some ''modify'')) = Some ''test''"
  using C3_active_step [of "[''planner'' \<mapsto> Done, ''test'' \<mapsto> Running, ''implement'' \<mapsto> Queued]" "Some ''modify''"]
  by (simp add: stepOrder_def activeSpec_def ALL_STEPS_def)

section \<open>Terminal events\<close>

lemma pushEvent_done_inflight: "doneInflight w \<Longrightarrow> pushEvent (EDone ok a b) w = w"
  by (simp add: pushEvent_def)

lemma fold_doneEvents_inflight:
  "doneInflight w \<Longrightarrow> fold pushEvent (doneEvents ds) w = w"
  by (induction ds) (auto simp: doneEvents_def pushEvent_done_inflight)

lemma pushEvent_done_ok:
  assumes "\<not> doneInflight w" and "doneProjectId (run w) a b = Some i" and "i \<noteq> []"
  shows "pushEvent (EDone True a b) w =
           w\<lparr>doneInflight := True,
             run := (run w)\<lparr>steps := (steps (run w))(''done'' \<mapsto> Done), running := False,
                             last_e := Some (EDone True a b)\<rparr>,
             store := setIsPending True (setReady True (store w)),
             inflight := inflight w @ [i],
             effects := effects w @ [FetchIssued i]\<rparr>"
proof -
  have "doneProjectId (setStep ''done'' Done (run w)) a b = Some i"
    using assms(2) by (simp add: doneProjectId_def setStep_def)
  with assms(1,3) show ?thesis
    by (simp add: pushEvent_def doneAsyncStart_def setLast_def setStep_def setRunning_def Let_def)
qed

lemma fetchSettled_failed_after_done:
  assumes "\<not> doneInflight w" and "doneProjectId (run w) a b = Some i" and "i \<noteq> []"
    and "inflight w = []"
  shows "fetchSettled (FetchFailed err) (pushEvent (EDone True a b) w) =
           w\<lparr>doneInflight := False,
             run := (run w)\<lparr>steps := (steps (run w))(''done'' \<mapsto> Done), running := False,
                             last_e := Some (EDone True a b)\<rparr>,
             store := setIsPending False (setIsPending True (setReady True (store w))),
             inflight := [],
             effects := effects w @ [FetchIssued i, ConsoleError err]\<rparr>"
  by (simp add: pushEvent_done_ok [OF assms(1,2,3)] assms(4) fetchSettled_def doneFinally_def
      doneCatch_def)

lemma project_pending_roundtrip:
  "project (setIsPending False (setIsPending True (setReady True s))) =
     map_option (\<lambda>p. p\<lparr>isPending := False\<rparr>) (project s)"
  by (cases "project s") (simp_all add: setIsPending_def setReady_def)

lemma ready_pending_roundtrip:
  "ready (setIsPending False (setIsPending True (setReady True s)))"
  by (cases "project s") (simp_all add: setIsPending_def setReady_def)

lemma project_after_apply:
  "project (setIsPending False (applyProjectToStore n s)) =
     map_option (\<lambda>_. \<lparr>id_p = id_n n, title = title_n n, files = files_n n,
                        activeFile = firstName (files_n n), messages = messages_n n,
                        isPending = False\<rparr>) (project s)"
proof (cases "project s")
  case None
  then show ?thesis
    by (simp add: applyProjectToStore_def setIsPending_def setReady_def setMessages_def
        setId_def renameProject_def setActiveFile_def setFiles_def)
next
  case (Some p)
  then show ?thesis
    by (cases p)
       (simp add: applyProjectToStore_def setIsPending_def setReady_def setMessages_def
        setId_def renameProject_def setActiveFile_def setFiles_def Let_def)
qed

lemma ready_after_apply: "ready (setIsPending False (applyProjectToStore n s))"
  by (cases "project s")
     (simp_all add: applyProjectToStore_def setIsPending_def setReady_def setMessages_def
        setId_def renameProject_def setActiveFile_def setFiles_def Let_def)

lemma project_setIsPending: "project (setIsPending v s) = map_option (\<lambda>p. p\<lparr>isPending := v\<rparr>) (project s)"
  by (cases "project s") (simp_all add: setIsPending_def)

text \<open>
  C1. While the single-flight guard is set, a \<open>done\<close> event leaves the whole state as
  it is. So when a first \<open>done{ok:true}\<close> event arrives with the guard clear and a
  project id to fetch, and any burst of duplicates follows before the fetch settles, the
  burst issues exactly one snapshot fetch and no replacement: the mirror is only marked
  ready and pending. The settling of that fetch with a snapshot replaces the mirror
  exactly once: identifier, title and messages are the snapshot's, the files are its
  normalised files with the first one selected, the mirror is ready and no longer
  pending, and the guard is clear.
\<close>

theorem C1_single_flight:
  assumes "\<not> doneInflight w" and "doneProjectId (run w) a b = Some i" and "i \<noteq> []"
  shows "(\<forall>w' ok a' b'. doneInflight w' \<longrightarrow> pushEvent (EDone ok a' b') w' = w')
    \<and> doneInflight (pushEvent (EDone True a b) w)
    \<and> fold pushEvent (EDone True a b # doneEvents ds) w = pushEvent (EDone True a b) w
    \<and> effects (fold pushEvent (EDone True a b # doneEvents ds) w) = effects w @ [FetchIssued i]
    \<and> fetchCount (fold pushEvent (EDone True a b # doneEvents ds) w) = fetchCount w + 1
    \<and> applyCount (fold pushEvent (EDone True a b # doneEvents ds) w) = applyCount w
    \<and> fetchCount (fetchSettled (FetchOk raw) (fold pushEvent (EDone True a b # doneEvents ds) w))
        = fetchCount w + 1
    \<and> applyCount (fetchSettled (FetchOk raw) (fold pushEvent (EDone True a b # doneEvents ds) w))
        = applyCount w + 1
    \<and> project (store (fold pushEvent (EDone True a b # doneEvents ds) w))
        = map_option (\<lambda>p. p\<lparr>isPending := True\<rparr>) (project (store w))
    \<and> (inflight w = [] \<longrightarrow>
         project (store (fetchSettled (FetchOk raw)
                    (fold pushEvent (EDone True a b # doneEvents ds) w)))
           = map_option
               (\<lambda>_. \<lparr>id_p = id_r raw, title = title_r raw,
                      files = map (\<lambda>f. \<lparr>name = name_r f,
                                          content = (case content_r f of
                                                       RawObject j \<Rightarrow> j
                                                     | RawString t \<Rightarrow> t)\<rparr>) (files_r raw),
                      activeFile = (case files_r raw of [] \<Rightarrow> None
                                    | f # _ \<Rightarrow> Some (name_r f)),
                      messages = messages_r raw, isPending = False\<rparr>)
               (project (store w))
         \<and> ready (store (fetchSettled (FetchOk raw)
                    (fold pushEvent (EDone True a b # doneEvents ds) w)))
         \<and> \<not> doneInflight (fetchSettled (FetchOk raw)
                    (fold pushEvent (EDone True a b # doneEvents ds) w))
         \<and> inflight (fetchSettled (FetchOk raw)
                    (fold pushEvent (EDone True a b # doneEvents ds) w)) = [])"
proof -
  let ?w1 = "pushEvent (EDone True a b) w"
  note eq = pushEvent_done_ok [OF assms]
  have g: "doneInflight ?w1" by (simp add: eq)
  have burst: "fold pushEvent (EDone True a b # doneEvents ds) w = ?w1"
    by (simp add: fold_doneEvents_inflight [OF g])
  have e1: "effects ?w1 = effects w @ [FetchIssued i]" by (simp add: eq)
  have i1: "inflight ?w1 = inflight w @ [i]" by (simp add: eq)
  have "inflight ?w1 \<noteq> []" by (simp add: i1)
  then obtain j rest where jr: "inflight ?w1 = j # rest"
    by (cases "inflight ?w1") auto
  have e2: "effects (fetchSettled (FetchOk raw) ?w1) = effects w @ [FetchIssued i, ProjectApplied]"
    by (simp add: fetchSettled_def jr doneFinally_def e1)
  have s1: "store ?w1 = setIsPending True (setReady True (store w))" by (simp add: eq)
  have p1: "project (store ?w1) = map_option (\<lambda>p. p\<lparr>isPending := True\<rparr>) (project (store w))"
    by (simp add: s1 project_setIsPending setReady_def)
  have s2: "store (fetchSettled (FetchOk raw) ?w1) =
              setIsPending False (applyProjectToStore (normalizeProject raw) (store ?w1))"
    by (simp add: fetchSettled_def jr doneFinally_def)
  have fn: "firstName (files_n (normalizeProject raw)) =
              (case files_r raw of [] \<Rightarrow> None | f # _ \<Rightarrow> Some (name_r f))"
    by (cases "files_r raw") (simp_all add: firstName_def normalizeProject_def)
  have p2: "project (store (fetchSettled (FetchOk raw) ?w1)) =
              map_option
               (\<lambda>_. \<lparr>id_p = id_r raw, title = title_r raw,
                      files = map (\<lambda>f. \<lparr>name = name_r f,
                                          content = (case content_r f of
                                                       RawObject j \<Rightarrow> j
                                                     | RawString t \<Rightarrow> t)\<rparr>) (files_r raw),
                      activeFile = (case files_r raw of [] \<Rightarrow> None
                                    | f # _ \<Rightarrow> Some (name_r f)),
                      messages = messages_r raw, isPending = False\<rparr>)
               (project (store w))"
    unfolding s2 project_after_apply fn p1
    by (simp add: normalizeProject_def option.map_comp comp_def)
  have r2: "ready (store (fetchSettled (FetchOk raw) ?w1))"
    unfolding s2 by (rule ready_after_apply)
  have g2: "\<not> doneInflight (fetchSettled (FetchOk raw) ?w1)"
    by (simp add: fetchSettled_def jr doneFinally_def)
  have i2: "inflight w = [] \<Longrightarrow> inflight (fetchSettled (FetchOk raw) ?w1) = []"
    using i1 by (simp add: fetchSettled_def doneFinally_def)
  show ?thesis
    unfolding burst
    using p1 p2 r2 g2 i2
    by (simp add: pushEvent_done_inflight g e1 e2 fetchCount_def applyCount_def)
qed

theorem C1_single_flight_witness:
  "\<not> doneInflight (initRun ''r1'' Generate (initialWorld ''p0''))
   \<and> doneProjectId (run (initRun ''r1'' Generate (initialWorld ''p0''))) None None = Some ''r1''
   \<and> doneInflight (pushEvent (EDone True None None) (initRun ''r1'' Generate (initialWorld ''p0'')))
   \<and> pushEvent (EDone True None None)
         (pushEvent (EDone True None None) (initRun ''r1'' Generate (initialWorld ''p0'')))
       = pushEvent (EDone True None None) (initRun ''r1'' Generate (initialWorld ''p0''))
   \<and> fetchCount (fold pushEvent (EDone True None None # doneEvents [(None, None), (Some ''r1'', None)])
        (initRun ''r1'' Generate (initialWorld ''p0''))) = 1
   \<and> applyCount (fetchSettled
          (FetchOk \<lparr>id_r = ''r1'', title_r = ''T'', files_r = [], messages_r = []\<rparr>)
          (fold pushEvent (EDone True None None # doneEvents [(None, None), (Some ''r1'', None)])
             (initRun ''r1'' Generate (initialWorld ''p0'')))) = 1
   \<and> inflight (initRun ''r1'' Generate (initialWorld ''p0'')) = []
   \<and> project (store (fetchSettled
          (FetchOk \<lparr>id_r = ''r1'', title_r = ''Shop'',
                    files_r = [\<lparr>name_r = ''index.html'', content_r = RawString ''<html/>''\<rparr>,
                               \<lparr>name_r = ''data.json'', content_r = RawObject ''{}''\<rparr>],
                    messages_r = [\<lparr>id_m = 1, content_m = ''hi'', fromUser = True\<rparr>]\<rparr>)
          (fold pushEvent (EDone True None None # doneEvents [(None, None), (Some ''r1'', None)])
             (initRun ''r1'' Generate (initialWorld ''p0'')))))
       = Some \<lparr>id_p = ''r1'', title = ''Shop'',
                files = [\<lparr>name = ''index.html'', content = ''<html/>''\<rparr>,
                         \<lparr>name = ''data.json'', content = ''{}''\<rparr>],
                activeFile = Some ''index.html'',
                messages = [\<lparr>id_m = 1, content_m = ''hi'', fromUser = True\<rparr>],
                isPending = False\<rparr>"
proof -
  let ?w = "initRun ''r1'' Generate (initialWorld ''p0'')"
  have a: "\<not> doneInflight ?w" by (simp add: initRun_def)
  have b: "doneProjectId (run ?w) None None = Some ''r1''"
    by (simp add: initRun_def doneProjectId_def setInitialRunState_def)
  have c: "''r1'' \<noteq> []" by simp
  have z: "fetchCount ?w = 0" "applyCount ?w = 0"
    by (simp_all add: initRun_def initialWorld_def fetchCount_def applyCount_def)
  have d: "inflight ?w = []" by (simp add: initRun_def initialWorld_def)
  have p: "project (store ?w) = Some (createEmptyProject ''p0'' ''Undefined Project'')"
    by (simp add: initRun_def initialWorld_def)
  from C1_single_flight [OF a b c, of "[(None, None), (Some ''r1'', None)]"
      "\<lparr>id_r = ''r1'', title_r = ''T'', files_r = [], messages_r = []\<rparr>"]
    C1_single_flight [OF a b c, of "[(None, None), (Some ''r1'', None)]"
      "\<lparr>id_r = ''r1'', title_r = ''Shop'',
        files_r = [\<lparr>name_r = ''index.html'', content_r = RawString ''<html/>''\<rparr>,
                   \<lparr>name_r = ''data.json'', content_r = RawObject ''{}''\<rparr>],
        messages_r = [\<lparr>id_m = 1, content_m = ''hi'', fromUser = True\<rparr>]\<rparr>"]
    a b z d p
  show ?thesis by auto
qed

text \<open>
  C4 as stated fails: the handler marks the mirror ready before it fetches, so a mirror
  that was not ready differs from its state before the terminal event after the fetch has
  failed.
\<close>

theorem C4_mirror_changed_counterexample:
  "store (fetchSettled (FetchFailed ''Failed to fetch project: HTTP 500'')
            (pushEvent (EDone True None None) (initRun ''r1'' Generate (initialWorld ''p0''))))
     \<noteq> store (initRun ''r1'' Generate (initialWorld ''p0''))
   \<and> \<not> ready (store (initRun ''r1'' Generate (initialWorld ''p0'')))
   \<and> ready (store (fetchSettled (FetchFailed ''Failed to fetch project: HTTP 500'')
            (pushEvent (EDone True None None) (initRun ''r1'' Generate (initialWorld ''p0'')))))"
proof -
  let ?w = "initRun ''r1'' Generate (initialWorld ''p0'')"
  have a: "\<not> doneInflight ?w" by (simp add: initRun_def)
  have b: "doneProjectId (run ?w) None None = Some ''r1''"
    by (simp add: initRun_def doneProjectId_def setInitialRunState_def)
  have c: "inflight ?w = []" by (simp add: initRun_def initialWorld_def)
  have r0: "\<not> ready (store ?w)" by (simp add: initRun_def initialWorld_def)
  have r1: "ready (store (fetchSettled (FetchFailed ''Failed to fetch project: HTTP 500'')
            (pushEvent (EDone True None None) ?w)))"
    by (simp add: fetchSettled_failed_after_done [OF a b _ c] ready_pending_roundtrip)
  from r0 r1 show ?thesis by metis
qed

text \<open>
  C4, amended. When the guard is clear, no other fetch is outstanding, and the fetch that a
  \<open>done{ok:true}\<close> event issues throws, the failure is caught and logged, the guard is
  cleared, no further fetch is issued and nothing is applied; identifier, title, files,
  selection and messages of the mirror are those from before the event. The pending flag
  is cleared and the ready flag is set.
\<close>

theorem C4_fetch_failure:
  assumes "\<not> doneInflight w" and "doneProjectId (run w) a b = Some i" and "i \<noteq> []"
    and "inflight w = []"
  shows "\<not> doneInflight (fetchSettled (FetchFailed err) (pushEvent (EDone True a b) w))
    \<and> effects (fetchSettled (FetchFailed err) (pushEvent (EDone True a b) w))
         = effects w @ [FetchIssued i, ConsoleError err]
    \<and> inflight (fetchSettled (FetchFailed err) (pushEvent (EDone True a b) w)) = []
    \<and> project (store (fetchSettled (FetchFailed err) (pushEvent (EDone True a b) w)))
         = map_option (\<lambda>p. p\<lparr>isPending := False\<rparr>) (project (store w))
    \<and> ready (store (fetchSettled (FetchFailed err) (pushEvent (EDone True a b) w)))"
  by (simp add: fetchSettled_failed_after_done [OF assms] project_pending_roundtrip
      ready_pending_roundtrip)

theorem C4_fetch_failure_witness:
  "\<not> doneInflight (initRun ''r1'' Generate (initialWorld ''p0''))
   \<and> doneProjectId (run (initRun ''r1'' Generate (initialWorld ''p0''))) None None = Some ''r1''
   \<and> inflight (initRun ''r1'' Generate (initialWorld ''p0'')) = []
   \<and> project (store (fetchSettled (FetchFailed ''timeout'')
        (pushEvent (EDone True None None) (initRun ''r1'' Generate (initialWorld ''p0'')))))
       = Some (createEmptyProject ''p0'' ''Undefined Project'')
   \<and> effects (fetchSettled (FetchFailed ''timeout'')
        (pushEvent (EDone True None None) (initRun ''r1'' Generate (initialWorld ''p0''))))
       = [FetchIssued ''r1'', ConsoleError ''timeout'']"
proof -
  let ?w = "initRun ''r1'' Generate (initialWorld ''p0'')"
  have a: "\<not> doneInflight ?w" by (simp add: initRun_def)
  have b: "doneProjectId (run ?w) None None = Some ''r1''"
    by (simp add: initRun_def doneProjectId_def setInitialRunState_def)
  have c: "''r1'' \<noteq> []" by simp
  have d: "inflight ?w = []" by (simp add: initRun_def initialWorld_def)
  have e: "effects ?w = []" by (simp add: initRun_def initialWorld_def)
  have p: "project (store ?w) = Some (createEmptyProject ''p0'' ''Undefined Project'')"
    by (simp add: initRun_def initialWorld_def)
  have q: "(createEmptyProject ''p0'' ''Undefined Project'')\<lparr>isPending := False\<rparr>
             = createEmptyProject ''p0'' ''Undefined Project''"
    by (simp add: createEmptyProject_def)
  from C4_fetch_failure [OF a b c d, of "''timeout''"] a b d e p q
  show ?thesis by simp
qed

text \<open>
  C5. A \<open>done{ok:false}\<close> event that arrives with the guard clear issues no fetch and
  has no other effect on the reconciler's trace, appends exactly one failure entry to the
  message log of the project the store holds, leaves the run log as it is, and leaves the
  guard clear.
\<close>

theorem C5_done_failure:
  assumes "\<not> doneInflight w" and "project (store w) = Some p"
  shows "effects (pushEvent (EDone False a b) w) = effects w
    \<and> inflight (pushEvent (EDone False a b) w) = inflight w
    \<and> fetchCount (pushEvent (EDone False a b) w) = fetchCount w
    \<and> map_option messages (project (store (pushEvent (EDone False a b) w)))
         = Some (messages p @
             [\<lparr>id_m = (if messages p \<noteq> [] then id_m (last (messages p)) else 0) + 1,
               content_m = ''Pipeline failed to complete.'', fromUser = False\<rparr>])
    \<and> logs (run (pushEvent (EDone False a b) w)) = logs (run w)
    \<and> \<not> doneInflight (pushEvent (EDone False a b) w)"
  using assms
  by (simp add: pushEvent_def addMessage_def setReady_def setStep_def fetchCount_def Let_def)

theorem C5_done_failure_witness:
  "\<not> doneInflight (initialWorld ''p0'')
   \<and> project (store (initialWorld ''p0'')) = Some (createEmptyProject ''p0'' ''Undefined Project'')
   \<and> map_option messages (project (store (pushEvent (EDone False None None) (initialWorld ''p0''))))
       = Some [\<lparr>id_m = 1, content_m = ''Pipeline failed to complete.'', fromUser = False\<rparr>]
   \<and> effects (pushEvent (EDone False None None) (initialWorld ''p0'')) = []"
proof -
  have a: "\<not> doneInflight (initialWorld ''p0'')" by (simp add: initialWorld_def)
  have p: "project (store (initialWorld ''p0'')) = Some (createEmptyProject ''p0'' ''Undefined Project'')"
    by (simp add: initialWorld_def)
  have m: "messages (createEmptyProject ''p0'' ''Undefined Project'') = []"
    by (simp add: createEmptyProject_def)
  have e: "effects (initialWorld ''p0'') = []" by (simp add: initialWorld_def)
  from C5_done_failure [OF a p, of None None] a p m e
  show ?thesis by simp
qed

section \<open>Selection and optimistic structural edits\<close>

lemma find_name_Some:
  "find (\<lambda>f. Some (name f) = a) fs = Some f \<Longrightarrow> Some (name f) = a \<and> name f \<in> set (map name fs)"
  by (induction fs) (auto split: if_splits)

lemma find_name_None:
  "find (\<lambda>f. Some (name f) = a) fs = None \<Longrightarrow> a \<notin> Some ` set (map name fs)"
  by (induction fs) (auto split: if_splits)

lemma firstName_member: "firstName fs = Some a \<Longrightarrow> a \<in> set (map name fs)"
  by (cases fs) (auto simp: firstName_def)

lemma selection_setFiles:
  assumes "project s = Some p"
  shows "selection (setFiles fs s) =
           (if activeFile p \<in> Some ` set (map name fs) then activeFile p else firstName fs)"
proof (cases "find (\<lambda>f. Some (name f) = activeFile p) fs")
  case None
  from find_name_None [OF None] show ?thesis
    using assms None by (simp add: setFiles_def selection_def)
next
  case (Some f)
  from find_name_Some [OF Some]
  have e: "activeFile p = Some (name f)" and m: "name f \<in> set (map name fs)"
    by simp_all
  from m have "Some (name f) \<in> Some ` set (map name fs)" by (rule imageI)
  with e have i: "activeFile p \<in> Some ` set (map name fs)" by simp
  have "selection (setFiles fs s) = Some (name f)"
    using assms Some by (simp add: setFiles_def selection_def)
  with e i show ?thesis by simp
qed

lemma fileNames_setFiles: "project s = Some p \<Longrightarrow> fileNames (setFiles fs s) = map name fs"
  by (simp add: setFiles_def fileNames_def)

lemma selectionValid_setFiles:
  assumes "project s = Some p"
  shows "selectionValid (setFiles fs s)"
proof -
  have "selection (setFiles fs s) = Some a \<Longrightarrow> a \<in> set (map name fs)" for a
    unfolding selection_setFiles [OF assms]
    by (auto split: if_splits dest: firstName_member)
  then show ?thesis
    by (auto simp: selectionValid_def fileNames_setFiles [OF assms] split: option.splits)
qed

lemma selection_deleteFile:
  "project s = Some p \<Longrightarrow>
   selection (deleteFile n s) =
     (if activeFile p = Some n then firstName (filter (\<lambda>f. name f \<noteq> n) (files p))
      else activeFile p)"
  by (simp add: deleteFile_def selection_def Let_def)

lemma fileNames_deleteFile:
  "project s = Some p \<Longrightarrow> fileNames (deleteFile n s) = filter (\<lambda>x. x \<noteq> n) (map name (files p))"
  by (simp add: deleteFile_def fileNames_def Let_def filter_map comp_def)

lemma selectionValid_deleteFile:
  assumes "project s = Some p" and "selectionValid s"
  shows "selectionValid (deleteFile n s)"
proof -
  let ?rest = "filter (\<lambda>f. name f \<noteq> n) (files p)"
  have names: "fileNames (deleteFile n s) = map name ?rest"
    using assms(1) by (simp add: deleteFile_def fileNames_def Let_def)
  have before: "activeFile p = Some a \<Longrightarrow> a \<in> set (map name (files p))" for a
    using assms by (simp add: selectionValid_def selection_def fileNames_def)
  have "a \<in> set (map name ?rest)" if sel: "selection (deleteFile n s) = Some a" for a
  proof (cases "activeFile p = Some n")
    case True
    with sel have "firstName ?rest = Some a"
      by (simp add: selection_deleteFile [OF assms(1)])
    then show ?thesis by (rule firstName_member)
  next
    case False
    with sel have a: "activeFile p = Some a"
      by (simp add: selection_deleteFile [OF assms(1)])
    with False have "a \<noteq> n" by simp
    with before [OF a] show ?thesis by auto
  qed
  then show ?thesis
    unfolding selectionValid_def names by (simp split: option.splits)
qed

text \<open>
  C7. With files a.ts and b.ts and a.ts selected, the confirmed delete of a.ts issues the
  remote delete and at once leaves b.ts as the only file and as the selection; when the
  remote delete fails, the rollback gives back the store as it was: both files with their
  contents, and a.ts selected.
\<close>

theorem C7_delete_rollback:
  "fst (snd (handleDeleteFile ''a.ts'' True (mirrorAB ca cb))) = [DeleteFileReq ''a.ts'']
   \<and> fileNames (fst (handleDeleteFile ''a.ts'' True (mirrorAB ca cb))) = [''b.ts'']
   \<and> selection (fst (handleDeleteFile ''a.ts'' True (mirrorAB ca cb))) = Some ''b.ts''
   \<and> map_option (\<lambda>c. deleteFileOnError c (fst (handleDeleteFile ''a.ts'' True (mirrorAB ca cb))))
        (snd (snd (handleDeleteFile ''a.ts'' True (mirrorAB ca cb))))
       = Some (mirrorAB ca cb)
   \<and> fileNames (mirrorAB ca cb) = [''a.ts'', ''b.ts'']
   \<and> selection (mirrorAB ca cb) = Some ''a.ts''"
  by (simp add: handleDeleteFile_def mirrorAB_def setFiles_def setActiveFile_def firstName_def
      deleteFileOnError_def fileNames_def selection_def Let_def)

lemma handleAddFile_exists:
  "newName \<in> set (fileNames s) \<Longrightarrow> handleAddFile (Some newName) s = (s, [])"
  by (cases "project s") (auto simp: handleAddFile_def fileNames_def)

lemma renameFile_exists:
  "newName \<in> set (fileNames s) \<Longrightarrow> renameFile oldName newName s = (s, [], None)"
  by (cases "project s") (auto simp: renameFile_def renameOnMutate_def renameOnError_def fileNames_def)

lemma renameFile_selected:
  assumes "project s = Some p" and "newName \<notin> set (fileNames s)"
    and "selection s = Some oldName"
  shows "selection (fst (renameFile oldName newName s)) = Some newName"
    and "fst (snd (renameFile oldName newName s)) = [RenameFileReq oldName newName]"
    and "fileNames (fst (renameFile oldName newName s)) =
           map (\<lambda>x. if x = oldName then newName else x) (fileNames s)"
proof -
  from assms have n: "newName \<notin> set (map name (files p))" and a: "activeFile p = Some oldName"
    by (simp_all add: fileNames_def selection_def)
  let ?next = "map (\<lambda>f. if name f = oldName then f\<lparr>name := newName\<rparr> else f) (files p)"
  have r: "renameFile oldName newName s =
             (setActiveFile (Some newName) (setFiles ?next s),
              [RenameFileReq oldName newName],
              Some \<lparr>prevFiles = files p, prevActive = activeFile p\<rparr>)"
    using assms(1) n a by (simp add: renameFile_def renameOnMutate_def Let_def)
  have q: "project (setFiles ?next s) \<noteq> None"
    using assms(1) by (simp add: setFiles_def Let_def)
  show "selection (fst (renameFile oldName newName s)) = Some newName"
    using q by (auto simp: r selection_def setActiveFile_def)
  show "fst (snd (renameFile oldName newName s)) = [RenameFileReq oldName newName]"
    by (simp add: r)
  have "map name ?next = map (\<lambda>x. if x = oldName then newName else x) (map name (files p))"
    by (induction "files p") (simp_all add: comp_def)
  then show "fileNames (fst (renameFile oldName newName s)) =
           map (\<lambda>x. if x = oldName then newName else x) (fileNames s)"
    using assms(1) by (simp add: r fileNames_def setActiveFile_def setFiles_def Let_def)
qed

text \<open>
  C8. An add whose name, and a rename whose destination name, is already a file of the
  mirror issues no remote request and leaves the store as it is. A rename of the selected
  file to a name that is free issues the remote rename, renames the file in the
  collection, and moves the selection to the new name.
\<close>

theorem C8_name_collision:
  "(newName \<in> set (fileNames s) \<longrightarrow> handleAddFile (Some newName) s = (s, []))
   \<and> (newName \<in> set (fileNames s) \<longrightarrow> renameFile oldName newName s = (s, [], None))
   \<and> (project s \<noteq> None \<and> newName \<notin> set (fileNames s) \<and> selection s = Some oldName \<longrightarrow>
        selection (fst (renameFile oldName newName s)) = Some newName
        \<and> fst (snd (renameFile oldName newName s)) = [RenameFileReq oldName newName]
        \<and> fileNames (fst (renameFile oldName newName s)) =
            map (\<lambda>x. if x = oldName then newName else x) (fileNames s))"
  using handleAddFile_exists renameFile_exists renameFile_selected
  by (cases "project s") auto

theorem C8_name_collision_witness:
  "''b.ts'' \<in> set (fileNames (mirrorAB ''x'' ''y''))
   \<and> handleAddFile (Some ''b.ts'') (mirrorAB ''x'' ''y'') = (mirrorAB ''x'' ''y'', [])
   \<and> renameFile ''a.ts'' ''b.ts'' (mirrorAB ''x'' ''y'') = (mirrorAB ''x'' ''y'', [], None)
   \<and> project (mirrorAB ''x'' ''y'') \<noteq> None
   \<and> ''c.ts'' \<notin> set (fileNames (mirrorAB ''x'' ''y''))
   \<and> selection (mirrorAB ''x'' ''y'') = Some ''a.ts''
   \<and> selection (fst (renameFile ''a.ts'' ''c.ts'' (mirrorAB ''x'' ''y''))) = Some ''c.ts''
   \<and> fileNames (fst (renameFile ''a.ts'' ''c.ts'' (mirrorAB ''x'' ''y''))) = [''c.ts'', ''b.ts'']"
proof -
  have n: "fileNames (mirrorAB ''x'' ''y'') = [''a.ts'', ''b.ts'']"
    by (simp add: mirrorAB_def fileNames_def)
  have a: "selection (mirrorAB ''x'' ''y'') = Some ''a.ts''"
    by (simp add: mirrorAB_def selection_def)
  have p: "project (mirrorAB ''x'' ''y'') \<noteq> None" by (simp add: mirrorAB_def)
  from C8_name_collision [of "''b.ts''" "mirrorAB ''x'' ''y''" "''a.ts''"]
       C8_name_collision [of "''c.ts''" "mirrorAB ''x'' ''y''" "''a.ts''"] n a p
  show ?thesis by simp
qed

text \<open>
  C10 as stated fails for \<open>deleteFile\<close>: it keeps a selection that names no file.
  With a.ts and b.ts in the collection and the selection set to c.ts, deleting b.ts leaves
  a.ts as the only file and c.ts selected.
\<close>

theorem C10_deleteFile_counterexample:
  "project (setActiveFile (Some ''c.ts'') (mirrorAB ''x'' ''y'')) \<noteq> None
   \<and> fileNames (deleteFile ''b.ts'' (setActiveFile (Some ''c.ts'') (mirrorAB ''x'' ''y''))) = [''a.ts'']
   \<and> selection (deleteFile ''b.ts'' (setActiveFile (Some ''c.ts'') (mirrorAB ''x'' ''y''))) = Some ''c.ts''
   \<and> \<not> selectionValid (deleteFile ''b.ts'' (setActiveFile (Some ''c.ts'') (mirrorAB ''x'' ''y'')))"
  by (simp add: selectionValid_def selection_def fileNames_def deleteFile_def setActiveFile_def
      mirrorAB_def Let_def)

text \<open>
  C10, amended. On a store that holds a project, \<open>setFiles\<close> always leaves a selection
  that is absent or names a file of the new collection: the previous selection when a
  file of that name is in the new collection, else the first file, else none.
  \<open>deleteFile\<close> keeps the selection unless the deleted file was selected, and then
  selects the first remaining file or none; its result has a selection that is absent
  or names a remaining file whenever that held before the call.
\<close>

theorem C10_selection_invariant:
  assumes "project s = Some p"
  shows "selectionValid (setFiles fs s)
    \<and> selection (setFiles fs s) =
        (if activeFile p \<in> Some ` set (map name fs) then activeFile p else firstName fs)
    \<and> selection (deleteFile n s) =
        (if activeFile p = Some n then firstName (filter (\<lambda>f. name f \<noteq> n) (files p))
         else activeFile p)
    \<and> (selectionValid s \<longrightarrow> selectionValid (deleteFile n s))"
  using selectionValid_setFiles [OF assms] selection_setFiles [OF assms]
    selection_deleteFile [OF assms] selectionValid_deleteFile [OF assms]
  by simp

theorem C10_selection_invariant_witness:
  "project (mirrorAB ''x'' ''y'') \<noteq> None
   \<and> selectionValid (mirrorAB ''x'' ''y'')
   \<and> selectionValid (deleteFile ''a.ts'' (mirrorAB ''x'' ''y''))
   \<and> selection (deleteFile ''a.ts'' (mirrorAB ''x'' ''y'')) = Some ''b.ts''
   \<and> selectionValid (setFiles [\<lparr>name = ''z.ts'', content = []\<rparr>] (mirrorAB ''x'' ''y''))
   \<and> selection (setFiles [\<lparr>name = ''z.ts'', content = []\<rparr>] (mirrorAB ''x'' ''y'')) = Some ''z.ts''"
proof -
  let ?p = "\<lparr>id_p = ''p0'', title = ''T'',
             files = [\<lparr>name = ''a.ts'', content = ''x''\<rparr>, \<lparr>name = ''b.ts'', content = ''y''\<rparr>],
             activeFile = Some ''a.ts'', messages = [], isPending = False\<rparr>"
  have p: "project (mirrorAB ''x'' ''y'') = Some ?p" by (simp add: mirrorAB_def)
  have v: "selectionValid (mirrorAB ''x'' ''y'')"
    by (simp add: selectionValid_def selection_def fileNames_def mirrorAB_def)
  from C10_selection_invariant [OF p, of "[\<lparr>name = ''z.ts'', content = []\<rparr>]" "''a.ts''"] p v
  show ?thesis by (simp add: firstName_def)
qed

section \<open>Debounced persistence\<close>






lemma project_setIsPending_None: "(project (setIsPending v s) = None) = (project s = None)"
  by (cases "project s") (simp_all add: setIsPending_def)












section \<open>Cancel run\<close>

text \<open>
  C9 as stated fails: when the remote kill call is answered with an error, the request has
  been issued and the run store is left as it was, still running, and not reset.
\<close>

theorem C9_kill_failure_counterexample:
  "killRun (Some ''tok'') ''r1'' (KillNotOk ''boom'') (initRun ''r1'' Generate (initialWorld ''p0''))
     = (initRun ''r1'' Generate (initialWorld ''p0''), [''r1''])
   \<and> running (run (initRun ''r1'' Generate (initialWorld ''p0'')))
   \<and> \<not> running (run (reset (initRun ''r1'' Generate (initialWorld ''p0''))))
   \<and> fst (killRun (Some ''tok'') ''r1'' (KillNotOk ''boom'')
            (initRun ''r1'' Generate (initialWorld ''p0'')))
       \<noteq> reset (initRun ''r1'' Generate (initialWorld ''p0''))"
proof -
  let ?w = "initRun ''r1'' Generate (initialWorld ''p0'')"
  have k: "killRun (Some ''tok'') ''r1'' (KillNotOk ''boom'') ?w = (?w, [''r1''])"
    by (simp add: killRun_def killRunFn_def)
  have r: "running (run ?w)" by (simp add: initRun_def)
  have n: "\<not> running (run (reset ?w))" by (simp add: reset_def setInitialRunState_def)
  from r n have "?w \<noteq> reset ?w" by metis
  with k r n show ?thesis by simp
qed

text \<open>
  C9, amended. A cancel request issues the remote kill call when a token is available and
  none otherwise. The run store is reset exactly when the call was issued and succeeded:
  an ok reply whose body is read. When the call fails in any way (the request is
  rejected, the reply is not ok, or its body cannot be read), or there is no token, the
  run store is left as it is.
\<close>

theorem C9_kill_run:
  "snd (killRun token rid reply w) = (if token = None \<or> token = Some [] then [] else [rid])
   \<and> fst (killRun token rid reply w) =
       (if token = None \<or> token = Some [] then w
        else (case reply of
                KillOk \<Rightarrow> reset w
              | KillNotOk text \<Rightarrow> w
              | KillFetchRejected err \<Rightarrow> w
              | KillTextRejected err \<Rightarrow> w
              | KillJsonRejected err \<Rightarrow> w))
   \<and> reset w = w\<lparr>doneInflight := False,
                  run := (run w)\<lparr>runId := None, running := False, steps := Map.empty,
                                  logs := [], last_e := None\<rparr>\<rparr>"
  by (cases token; cases reply)
     (simp_all add: killRun_def killRunFn_def reset_def setInitialRunState_def)

end
